theory Spec2Isabelle
  imports Main "HOL-Library.Sublist"
begin

section \<open>The JS renderer of vugu: renderer-js.go\<close>

text \<open>
  The renderer walks a virtual DOM tree (\<open>VGNode\<close>) and writes one instruction per
  synchronisation step into an instruction list, which is handed to the host document in
  batches. This theory embeds \<open>Render\<close>, \<open>visitFirst\<close>, \<open>visitHead\<close>,
  \<open>visitBody\<close>, \<open>visitMount\<close>, \<open>visitSyncNode\<close>, \<open>visitSyncElementEtc\<close> and
  \<open>handleDOMEvent\<close> of \<open>renderer-js.go\<close>. Go strings and byte slices are
  \<open>string\<close> (lists of bytes), a nil-able pointer is an \<open>option\<close>, and a returned
  \<open>error\<close> is an \<open>error option\<close> (\<open>None\<close> is \<open>nil\<close>).
\<close>

subsection \<open>The virtual tree\<close>

text \<open>
  Modelled from the spec: the declaration of \<open>VGNodeType\<close> is not part of
  \<open>renderer-js.go\<close>. The spec gives the variants Element, Text, Comment and Document;
  the source names \<open>ElementNode\<close>, \<open>TextNode\<close> and \<open>CommentNode\<close>.
\<close>

datatype VGNodeType = ElementNode | TextNode | CommentNode | DocumentNode

text \<open>
  Modelled from the spec: the declarations of \<open>VGAttribute\<close>, \<open>DOMEventHandlerSpec\<close>,
  \<open>VGNode\<close> and \<open>BuildOut\<close> are not part of \<open>renderer-js.go\<close>. The fields are the
  ones the source reads (\<open>a.Key\<close>, \<open>a.Val\<close>, \<open>hs.EventType\<close>, \<open>hs.Capture\<close>,
  \<open>hs.Passive\<close>, \<open>n.Type\<close>, \<open>n.Data\<close>, \<open>n.Attr\<close>,
  \<open>n.DOMEventHandlerSpecList\<close>, \<open>n.InnerHTML\<close>, \<open>n.FirstChild\<close>,
  \<open>n.NextSibling\<close>, \<open>bo.Doc\<close>). A node points to its first child and to its next
  sibling; the tree is acyclic, so the two pointers are optional subtrees.
\<close>

record VGAttribute =
  Key :: string
  Val :: string

record DOMEventHandlerSpec =
  EventType :: string
  Capture :: bool
  Passive :: bool

datatype VGNode = VGNode
  (Type: VGNodeType)
  (Data: string)
  (Attr: "VGAttribute list")
  (DOMEventHandlerSpecList: "DOMEventHandlerSpec list")
  (InnerHTML: "string option")
  (FirstChild: "VGNode option")
  (NextSibling: "VGNode option")

record BuildOut =
  Doc :: "VGNode option"

subsection \<open>Instructions, errors and the instruction list\<close>

text \<open>
  One constructor per \<open>write...\<close> method that the renderer calls on its instruction list,
  with the arguments of the call.
\<close>

datatype instruction =
    ClearEl
  | SelectMountPoint string string
  | SetElement string
  | SetText string
  | SetComment string
  | SetAttrStr string string
  | RemoveOtherAttrs
  | SetEventListener string string bool bool
  | RemoveOtherEventListeners string
  | SetInnerHTML string
  | MoveToFirstChild
  | MoveToNextSibling
  | MoveToParent

text \<open>
  The errors that the renderer builds with \<open>fmt.Errorf\<close>, one constructor per message,
  carrying the values the message is formatted from; \<open>BufferOverflow\<close> is the failure of a
  write in the instruction list.
\<close>

datatype error =
    JsEnvironmentNotAvailable
  | BuildOutIsNil
  | BuildOutDocIsNil
  | BuildOutDocTypeNotElementNode VGNodeType
  | RootOfComponentMustBeElement
  | UnexpectedTagInsideHtml string VGNode
  | UnknownNodeType VGNodeType
  | BufferOverflow

text \<open>
  Modelled from the spec: the type \<open>instructionList\<close> and its methods are not part of
  \<open>renderer-js.go\<close>. By the spec, a write appends one encoded instruction to the current
  buffer; it fails with \<open>BufferOverflow\<close> only if the single instruction cannot fit even in
  an empty buffer; otherwise, if the current buffer lacks room, it flushes first and then
  writes. A flush hands the filled prefix of the buffer to the host in a single call and
  resets the write cursor. The flush callback that \<open>NewJSRenderer\<close> installs calls
  \<open>vuguRender\<close> and returns \<open>nil\<close>. The buffer holds \<open>capacity\<close> bytes
  (\<open>NewJSRenderer\<close> allocates 4096); the encoded length of an instruction is a parameter
  \<open>sz\<close>, since the wire format is not fixed by the spec. \<open>flushed\<close> collects the batches
  the host has received, in order.
\<close>

record instructionList =
  capacity :: nat
  pos :: nat
  pending :: "instruction list"
  flushed :: "instruction list list"

definition flush :: "instructionList \<Rightarrow> error option \<times> instructionList" where
  "flush il = (None, il\<lparr>pos := 0, pending := [], flushed := flushed il @ [pending il]\<rparr>)"

definition writeInstruction ::
  "(instruction \<Rightarrow> nat) \<Rightarrow> instruction \<Rightarrow> instructionList \<Rightarrow> error option \<times> instructionList" where
  "writeInstruction sz i il =
     (if capacity il < sz i then (Some BufferOverflow, il)
      else case (if capacity il < pos il + sz i then flush il else (None, il)) of
             (Some e, il') \<Rightarrow> (Some e, il')
           | (None, il') \<Rightarrow> (None, il'\<lparr>pos := pos il' + sz i, pending := pending il' @ [i]\<rparr>))"

subsection \<open>The renderer\<close>

text \<open>
  The fields of \<open>JSRenderer\<close> that rendering reads or changes. \<open>logged\<close> is the output of
  the standard logger, kept with the renderer so that every effect of a pass is in one
  state; a line is a constant message, or a value printed with \<open>%#v\<close>.
\<close>

datatype logLine = LogText string | LogBuildOut BuildOut | LogEl VGNode

record JSRenderer =
  MountPointSelector :: string
  instructionList :: instructionList
  logged :: "logLine list"

type_synonym result = "error option \<times> JSRenderer"

definition logPrintf :: "logLine \<Rightarrow> JSRenderer \<Rightarrow> JSRenderer" where
  "logPrintf l r = r\<lparr>logged := logged r @ [l]\<rparr>"

definition emit :: "(instruction \<Rightarrow> nat) \<Rightarrow> instruction \<Rightarrow> JSRenderer \<Rightarrow> result" where
  "emit sz i r =
     (case writeInstruction sz i (instructionList r) of
        (e, il') \<Rightarrow> (e, r\<lparr>instructionList := il'\<rparr>))"

text \<open>The \<open>write...\<close> methods, called on \<open>r.instructionList\<close>.\<close>

abbreviation "writeClearEl sz \<equiv> emit sz ClearEl"
abbreviation "writeSelectMountPoint sz selector nodeName \<equiv> emit sz (SelectMountPoint selector nodeName)"
abbreviation "writeSetElement sz nodeName \<equiv> emit sz (SetElement nodeName)"
abbreviation "writeSetText sz text \<equiv> emit sz (SetText text)"
abbreviation "writeSetComment sz comment \<equiv> emit sz (SetComment comment)"
abbreviation "writeSetAttrStr sz name val \<equiv> emit sz (SetAttrStr name val)"
abbreviation "writeRemoveOtherAttrs sz \<equiv> emit sz RemoveOtherAttrs"
abbreviation "writeSetEventListener sz positionID eventType capture passive \<equiv>
  emit sz (SetEventListener positionID eventType capture passive)"
abbreviation "writeRemoveOtherEventListeners sz positionID \<equiv>
  emit sz (RemoveOtherEventListeners positionID)"
abbreviation "writeSetInnerHTML sz html \<equiv> emit sz (SetInnerHTML html)"
abbreviation "writeMoveToFirstChild sz \<equiv> emit sz MoveToFirstChild"
abbreviation "writeMoveToNextSibling sz \<equiv> emit sz MoveToNextSibling"
abbreviation "writeMoveToParent sz \<equiv> emit sz MoveToParent"

text \<open>\<open>err := f(); if err != nil { return err }\<close> followed by the rest of the body.\<close>

definition orReturn :: "result \<Rightarrow> (JSRenderer \<Rightarrow> result) \<Rightarrow> result" where
  "orReturn m k = (case m of (Some e, r) \<Rightarrow> (Some e, r) | (None, r) \<Rightarrow> k r)"

text \<open>
  \<open>strings.ToLower\<close>, on the bytes of the string. The renderer only compares the result
  with \<open>html\<close>, \<open>head\<close> and \<open>body\<close>; no character outside ASCII lowers to one of
  their letters, so lowering the bytes \<open>A\<close> to \<open>Z\<close> decides these comparisons as the
  library function does.
\<close>

definition lowerByte :: "char \<Rightarrow> char" where
  "lowerByte c =
     (let k = (of_char c :: nat) in if 65 \<le> k \<and> k \<le> 90 then char_of (k + 32) else c)"

definition ToLower :: "string \<Rightarrow> string" where
  "ToLower s = map lowerByte s"

text \<open>\<open>fmt.Sprintf("%d", i)\<close> for a child index, which is never negative.\<close>

fun decimal :: "nat \<Rightarrow> string" where
  "decimal i =
     (if i < 10 then [''0123456789'' ! i]
      else decimal (i div 10) @ [''0123456789'' ! (i mod 10)])"

declare decimal.simps [simp del]

text \<open>
  The sibling loop \<open>for nchild := n.FirstChild; nchild != nil; nchild = nchild.NextSibling\<close>
  visits these nodes, in this order.
\<close>

lemma size_FirstChild [termination_simp]: "size_option size (FirstChild n) < size n"
  by (cases n) simp

lemma size_NextSibling [termination_simp]: "size_option size (NextSibling n) < size n"
  by (cases n) simp

fun siblings :: "VGNode option \<Rightarrow> VGNode list" where
  "siblings None = []"
| "siblings (Some c) = c # siblings (NextSibling c)"

subsection \<open>Synchronising a node\<close>

text \<open>
  \<open>visitSyncNode\<close> and \<open>visitSyncElementEtc\<close> call each other; the range loop over
  \<open>n.Attr\<close>, the range loop over \<open>n.DOMEventHandlerSpecList\<close> and the sibling loop of
  \<open>visitSyncElementEtc\<close> are the recursive functions \<open>writeAttrs\<close>,
  \<open>writeEventListeners\<close> and \<open>visitSyncChildren\<close>. The sibling loop carries the
  pointer \<open>nchild\<close> and the counter \<open>childIndex\<close>. Each \<open>append(positionID, ...)\<close>
  yields the bytes of \<open>positionID\<close> followed by the new bytes; a child identifier is
  only read while that child is visited, so sharing of the backing array between
  iterations does not show.
\<close>

lemma size_child_Some: "FirstChild n = Some c \<Longrightarrow> Suc (Suc (3 * size c)) < 3 * size n"
  using size_FirstChild [of n] by simp

lemma size_sibling_bound: "3 * size_option size (NextSibling c) < 3 + 3 * size c"
  using size_NextSibling [of c] by simp

fun writeAttrs :: "(instruction \<Rightarrow> nat) \<Rightarrow> VGAttribute list \<Rightarrow> JSRenderer \<Rightarrow> result" where
  "writeAttrs sz [] r = (None, r)"
| "writeAttrs sz (a # as) r =
     orReturn (writeSetAttrStr sz (Key a) (Val a) r) (writeAttrs sz as)"

fun writeEventListeners ::
  "(instruction \<Rightarrow> nat) \<Rightarrow> string \<Rightarrow> DOMEventHandlerSpec list \<Rightarrow> JSRenderer \<Rightarrow> result" where
  "writeEventListeners sz positionID [] r = (None, r)"
| "writeEventListeners sz positionID (hs # hss) r =
     orReturn (writeSetEventListener sz positionID (EventType hs) (Capture hs) (Passive hs) r)
       (writeEventListeners sz positionID hss)"

function
  visitSyncNode ::
    "(instruction \<Rightarrow> nat) \<Rightarrow> BuildOut \<Rightarrow> VGNode \<Rightarrow> string \<Rightarrow> JSRenderer \<Rightarrow> result" and
  visitSyncElementEtc ::
    "(instruction \<Rightarrow> nat) \<Rightarrow> BuildOut \<Rightarrow> VGNode \<Rightarrow> string \<Rightarrow> JSRenderer \<Rightarrow> result" and
  visitSyncChildren ::
    "(instruction \<Rightarrow> nat) \<Rightarrow> BuildOut \<Rightarrow> VGNode option \<Rightarrow> string \<Rightarrow> nat \<Rightarrow> JSRenderer \<Rightarrow> result"
where
  "visitSyncNode sz bo n positionID r0 =
     (let r = logPrintf (LogText ''visitSyncNode'') r0 in
      case Type n of
        ElementNode \<Rightarrow>
          orReturn (writeSetElement sz (Data n) r) (visitSyncElementEtc sz bo n positionID)
      | TextNode \<Rightarrow> writeSetText sz (Data n) r
      | CommentNode \<Rightarrow> writeSetComment sz (Data n) r
      | DocumentNode \<Rightarrow> (Some (UnknownNodeType (Type n)), r))"
| "visitSyncElementEtc sz bo n positionID r =
     orReturn (writeAttrs sz (Attr n) r) (\<lambda>r.
     orReturn (writeRemoveOtherAttrs sz r) (\<lambda>r.
     orReturn (if length (DOMEventHandlerSpecList n) > 0
               then writeEventListeners sz positionID (DOMEventHandlerSpecList n) r
               else (None, r)) (\<lambda>r.
     orReturn (writeRemoveOtherEventListeners sz positionID r) (\<lambda>r.
       case InnerHTML n of
         Some html \<Rightarrow> writeSetInnerHTML sz html r
       | None \<Rightarrow>
          (if FirstChild n \<noteq> None then
             orReturn (writeMoveToFirstChild sz r) (\<lambda>r.
             orReturn (visitSyncChildren sz bo (FirstChild n) positionID 1 r) (\<lambda>r.
             orReturn (writeMoveToParent sz r) (\<lambda>r.
               (None, r))))
           else (None, r))))))"
| "visitSyncChildren sz bo nchild positionID childIndex r =
     (case nchild of
        None \<Rightarrow> (None, r)
      | Some c \<Rightarrow>
          (let childPositionID = positionID @ ''_'' @ decimal childIndex in
           orReturn (visitSyncNode sz bo c childPositionID r) (\<lambda>r.
           orReturn (writeMoveToNextSibling sz r) (\<lambda>r.
             visitSyncChildren sz bo (NextSibling c) positionID (childIndex + 1) r))))"
  by pat_completeness auto
termination
  by (relation "measure (\<lambda>x. case x of
        Inl (sz, bo, n, p, r) \<Rightarrow> 3 * size n + 2
      | Inr (Inl (sz, bo, n, p, r)) \<Rightarrow> 3 * size n + 1
      | Inr (Inr (sz, bo, nchild, p, i, r)) \<Rightarrow> 3 * size_option size nchild)")
     (auto dest: size_child_Some simp: size_sibling_bound)

declare visitSyncNode.simps [simp del]
declare visitSyncElementEtc.simps [simp del]
declare visitSyncChildren.simps [simp del]

subsection \<open>The first node and the render pass\<close>

text \<open>\<open>visitHead\<close> and \<open>visitBody\<close> log one line and return \<open>nil\<close>.\<close>

definition visitHead :: "BuildOut \<Rightarrow> VGNode \<Rightarrow> string \<Rightarrow> JSRenderer \<Rightarrow> result" where
  "visitHead bo n positionID r = (None, logPrintf (LogText ''TODO: visitHead'') r)"

definition visitBody :: "BuildOut \<Rightarrow> VGNode \<Rightarrow> string \<Rightarrow> JSRenderer \<Rightarrow> result" where
  "visitBody bo n positionID r = (None, logPrintf (LogText ''TODO: visitBody'') r)"

definition visitMount ::
  "(instruction \<Rightarrow> nat) \<Rightarrow> BuildOut \<Rightarrow> VGNode \<Rightarrow> string \<Rightarrow> JSRenderer \<Rightarrow> result" where
  "visitMount sz bo n positionID r0 =
     (let r = logPrintf (LogText ''visitMount got here'') r0 in
      orReturn (writeSelectMountPoint sz (MountPointSelector r) (Data n) r)
        (visitSyncElementEtc sz bo n positionID))"

text \<open>The loop of \<open>visitFirst\<close> over the children of the \<open>html\<close> element.\<close>

fun visitFirstChildren :: "BuildOut \<Rightarrow> VGNode option \<Rightarrow> string \<Rightarrow> JSRenderer \<Rightarrow> result" where
  "visitFirstChildren bo None positionID r = (None, r)"
| "visitFirstChildren bo (Some nchild) positionID r =
     (if ToLower (Data nchild) = ''head'' then
        orReturn (visitHead bo nchild positionID r)
          (visitFirstChildren bo (NextSibling nchild) positionID)
      else if ToLower (Data nchild) = ''body'' then
        orReturn (visitBody bo nchild positionID r)
          (visitFirstChildren bo (NextSibling nchild) positionID)
      else (Some (UnexpectedTagInsideHtml (Data nchild) nchild), r))"

text \<open>The first line that \<open>visitFirst\<close> logs.\<close>

definition visitFirstTodo :: string where
  "visitFirstTodo = ''TODO: We need to go through and optimize away unneeded calls to create '' @
     ''elements, set attributes, set event handlers, etc. for cases where they are the same per hash''"

definition visitFirst ::
  "(instruction \<Rightarrow> nat) \<Rightarrow> BuildOut \<Rightarrow> VGNode \<Rightarrow> string \<Rightarrow> JSRenderer \<Rightarrow> result" where
  "visitFirst sz bo n positionID r0 =
     (let r = logPrintf (LogText visitFirstTodo) r0;
          r = logPrintf (LogText ''JSRenderer.visitFirst'') r in
      if Type n \<noteq> ElementNode then (Some RootOfComponentMustBeElement, r)
      else
        orReturn (writeClearEl sz r) (\<lambda>r.
          if ToLower (Data n) = ''html'' then visitFirstChildren bo (FirstChild n) positionID r
          else visitMount sz bo n positionID r))"

text \<open>
  \<open>Render\<close>. \<open>jsGlobalTruthy\<close> is the value of \<open>js.Global().Truthy()\<close>; the final
  flush is the one of the renderer's instruction list.
\<close>

definition flushInstructionList :: "JSRenderer \<Rightarrow> result" where
  "flushInstructionList r =
     (case flush (instructionList r) of (e, il') \<Rightarrow> (e, r\<lparr>instructionList := il'\<rparr>))"

definition Render ::
  "bool \<Rightarrow> (instruction \<Rightarrow> nat) \<Rightarrow> JSRenderer \<Rightarrow> BuildOut option \<Rightarrow> result" where
  "Render jsGlobalTruthy sz r0 bo =
     (if \<not> jsGlobalTruthy then (Some JsEnvironmentNotAvailable, r0)
      else case bo of
        None \<Rightarrow> (Some BuildOutIsNil, r0)
      | Some b \<Rightarrow>
         (case Doc b of
            None \<Rightarrow> (Some BuildOutDocIsNil, r0)
          | Some d \<Rightarrow>
             if Type d \<noteq> ElementNode then (Some (BuildOutDocTypeNotElementNode (Type d)), r0)
             else
               (let r = logPrintf (LogBuildOut b) r0;
                    el = d;
                    r = logPrintf (LogEl el) r in
                orReturn (visitFirst sz b d ''0'' r) (\<lambda>r.
                orReturn (flushInstructionList r) (\<lambda>r.
                  (None, r))))))"

text \<open>\<open>handleDOMEvent\<close> has no result; it panics with an error value.\<close>

datatype 'a outcome = Returned 'a | Panicked string

definition handleDOMEvent :: "JSRenderer \<Rightarrow> JSRenderer outcome" where
  "handleDOMEvent r = Panicked ''handleDOMEvent not yet implemented''"

subsection \<open>What a call emits\<close>

text \<open>
  The instructions written so far are the flushed batches, in order, followed by the
  pending ones: the host executes them in the order written. \<open>config\<close> is the part of
  the renderer that a pass reads and never changes. \<open>errOf f r\<close>, \<open>instrsOf f r\<close> and
  \<open>logsOf f r\<close> are the error that \<open>f\<close> returns when started in \<open>r\<close>, the instructions
  it adds to the stream, and the lines it logs.
\<close>

definition emitted :: "JSRenderer \<Rightarrow> instruction list" where
  "emitted r = concat (flushed (instructionList r)) @ pending (instructionList r)"

definition config :: "JSRenderer \<Rightarrow> nat \<times> string" where
  "config r = (capacity (instructionList r), MountPointSelector r)"

definition errOf :: "(JSRenderer \<Rightarrow> result) \<Rightarrow> JSRenderer \<Rightarrow> error option" where
  "errOf f r = fst (f r)"

definition instrsOf :: "(JSRenderer \<Rightarrow> result) \<Rightarrow> JSRenderer \<Rightarrow> instruction list" where
  "instrsOf f r = drop (length (emitted r)) (emitted (snd (f r)))"

definition logsOf :: "(JSRenderer \<Rightarrow> result) \<Rightarrow> JSRenderer \<Rightarrow> logLine list" where
  "logsOf f r = drop (length (logged r)) (logged (snd (f r)))"

definition fits :: "(instruction \<Rightarrow> nat) \<Rightarrow> JSRenderer \<Rightarrow> instruction \<Rightarrow> bool" where
  "fits sz r i \<longleftrightarrow> sz i \<le> capacity (instructionList r)"

definition afterLog :: "logLine \<Rightarrow> (JSRenderer \<Rightarrow> result) \<Rightarrow> JSRenderer \<Rightarrow> result" where
  "afterLog l f r = f (logPrintf l r)"

text \<open>
  \<open>effect g f e tr lg\<close>: started in any state with configuration \<open>g\<close>, the call \<open>f\<close>
  returns \<open>e\<close>, appends \<open>tr\<close> to the instruction stream and \<open>lg\<close> to the log, and keeps
  the configuration. A call is \<open>stateless\<close> when it has such an effect.
\<close>

definition effect ::
  "nat \<times> string \<Rightarrow> (JSRenderer \<Rightarrow> result) \<Rightarrow> error option \<Rightarrow> instruction list \<Rightarrow>
   logLine list \<Rightarrow> bool" where
  "effect g f e tr lg \<longleftrightarrow>
     (\<forall>r. config r = g \<longrightarrow>
        fst (f r) = e \<and> emitted (snd (f r)) = emitted r @ tr \<and>
        logged (snd (f r)) = logged r @ lg \<and> config (snd (f r)) = g)"

definition stateless :: "nat \<times> string \<Rightarrow> (JSRenderer \<Rightarrow> result) \<Rightarrow> bool" where
  "stateless g f \<longleftrightarrow> (\<exists>e tr lg. effect g f e tr lg)"

definition attrListenerInstrs :: "VGNode \<Rightarrow> string \<Rightarrow> instruction list" where
  "attrListenerInstrs n positionID =
     map (\<lambda>a. SetAttrStr (Key a) (Val a)) (Attr n) @ [RemoveOtherAttrs] @
     map (\<lambda>hs. SetEventListener positionID (EventType hs) (Capture hs) (Passive hs))
       (DOMEventHandlerSpecList n) @
     [RemoveOtherEventListeners positionID]"


text \<open>The children of the \<open>html\<close> element that \<open>visitFirst\<close> accepts.\<close>

definition isHeadOrBody :: "VGNode \<Rightarrow> bool" where
  "isHeadOrBody c \<longleftrightarrow> ToLower (Data c) = ''head'' \<or> ToLower (Data c) = ''body''"

text \<open>The build outputs that \<open>Render\<close> rejects: nil, without \<open>Doc\<close>, or with a \<open>Doc\<close>
  that is not an element.\<close>

definition invalidBuildOut :: "BuildOut option \<Rightarrow> bool" where
  "invalidBuildOut bo =
     (case bo of
        None \<Rightarrow> True
      | Some b \<Rightarrow> (case Doc b of None \<Rightarrow> True | Some d \<Rightarrow> Type d \<noteq> ElementNode))"

subsection \<open>A renderer and some trees\<close>

definition exampleSz :: "instruction \<Rightarrow> nat" where
  "exampleSz i = 8"

definition exampleRenderer :: JSRenderer where
  "exampleRenderer =
     \<lparr>MountPointSelector = ''#app'',
      instructionList = \<lparr>capacity = 4096, pos = 0, pending = [], flushed = []\<rparr>,
      logged = []\<rparr>"

definition exampleText :: VGNode where
  "exampleText = VGNode TextNode ''hi'' [] [] None None None"

definition exampleComment :: VGNode where
  "exampleComment = VGNode CommentNode ''note'' [] [] None None None"

definition exampleSpan :: VGNode where
  "exampleSpan =
     VGNode ElementNode ''span'' []
       [\<lparr>EventType = ''click'', Capture = False, Passive = True\<rparr>]
       None (Some exampleText) (Some exampleComment)"

definition exampleDiv :: VGNode where
  "exampleDiv =
     VGNode ElementNode ''div'' [\<lparr>Key = ''id'', Val = ''a''\<rparr>] [] None (Some exampleSpan) None"

definition exampleRaw :: VGNode where
  "exampleRaw =
     VGNode ElementNode ''p'' [\<lparr>Key = ''class'', Val = ''b''\<rparr>] [] (Some ''<b>x</b>'')
       (Some exampleText) None"

definition exampleDocument :: VGNode where
  "exampleDocument = VGNode DocumentNode [] [] [] None None None"

definition exampleBody :: VGNode where
  "exampleBody = VGNode ElementNode ''BODY'' [] [] None (Some exampleDiv) None"

definition exampleHead :: VGNode where
  "exampleHead = VGNode ElementNode ''head'' [] [] None None (Some exampleBody)"

definition exampleHtml :: VGNode where
  "exampleHtml = VGNode ElementNode ''Html'' [] [] None (Some exampleHead) None"

definition exampleHtmlBad :: VGNode where
  "exampleHtmlBad =
     VGNode ElementNode ''html'' [] [] None
       (Some (VGNode ElementNode ''head'' [] [] None None (Some exampleDiv))) None"

definition exampleBuildOut :: BuildOut where
  "exampleBuildOut = \<lparr>Doc = Some exampleDiv\<rparr>"



subsection \<open>Effects of the primitive steps\<close>

lemma effect_emit:
  "effect g (emit sz i) (if fst g < sz i then Some BufferOverflow else None)
     (if fst g < sz i then [] else [i]) []"
  by (auto simp: effect_def emit_def writeInstruction_def flush_def emitted_def config_def)

lemma effect_emit_selector:
  "effect g (\<lambda>r. emit sz (SelectMountPoint (MountPointSelector r) t) r)
     (if fst g < sz (SelectMountPoint (snd g) t) then Some BufferOverflow else None)
     (if fst g < sz (SelectMountPoint (snd g) t) then [] else [SelectMountPoint (snd g) t]) []"
  by (auto simp: effect_def emit_def writeInstruction_def flush_def emitted_def config_def)

lemma effect_flush: "effect g flushInstructionList None [] []"
  by (auto simp: effect_def flushInstructionList_def flush_def emitted_def config_def)

lemma effect_Pair: "effect g (Pair e) e [] []"
  by (simp add: effect_def)

lemma effect_afterLog: "effect g f e tr lg \<Longrightarrow> effect g (afterLog l f) e tr (l # lg)"
  by (simp add: effect_def afterLog_def logPrintf_def config_def emitted_def)

lemma effect_orReturn:
  assumes m: "effect g m e1 t1 l1" and k: "effect g k e2 t2 l2"
  shows "effect g (\<lambda>r. orReturn (m r) k)
           (if e1 = None then e2 else e1) (if e1 = None then t1 @ t2 else t1)
           (if e1 = None then l1 @ l2 else l1)"
  unfolding effect_def
proof (intro allI impI)
  fix r assume g: "config r = g"
  obtain e r1 where mr: "m r = (e, r1)" by (cases "m r")
  from m g mr have 1: "e = e1" "emitted r1 = emitted r @ t1" "logged r1 = logged r @ l1"
    "config r1 = g"
    unfolding effect_def by (metis fst_conv, metis snd_conv, metis snd_conv, metis snd_conv)
  show "fst (orReturn (m r) k) = (if e1 = None then e2 else e1) \<and>
        emitted (snd (orReturn (m r) k)) = emitted r @ (if e1 = None then t1 @ t2 else t1) \<and>
        logged (snd (orReturn (m r) k)) = logged r @ (if e1 = None then l1 @ l2 else l1) \<and>
        config (snd (orReturn (m r) k)) = g"
  proof (cases e1)
    case None
    with mr 1 have o: "orReturn (m r) k = k r1" by (simp add: orReturn_def)
    from k 1(4) have "fst (k r1) = e2" "emitted (snd (k r1)) = emitted r1 @ t2"
      "logged (snd (k r1)) = logged r1 @ l2" "config (snd (k r1)) = g"
      unfolding effect_def by blast+
    with None 1 show ?thesis unfolding o by simp
  next
    case (Some x)
    with mr 1 have o: "orReturn (m r) k = (Some x, r1)" by (simp add: orReturn_def)
    with Some 1 show ?thesis by simp
  qed
qed

lemma effect_run:
  assumes "effect g f e tr lg" and "config r = g"
  shows "errOf f r = e" and "instrsOf f r = tr" and "logsOf f r = lg"
  using assms by (auto simp: effect_def errOf_def instrsOf_def logsOf_def)

lemma stateless_emit [simp]: "stateless g (emit sz i)"
  unfolding stateless_def using effect_emit by blast

lemma stateless_emit_selector [simp]:
  "stateless g (\<lambda>r. emit sz (SelectMountPoint (MountPointSelector r) t) r)"
  unfolding stateless_def using effect_emit_selector by blast

lemma stateless_flush [simp]: "stateless g flushInstructionList"
  unfolding stateless_def using effect_flush by blast

lemma stateless_Pair [simp]: "stateless g (Pair e)" "stateless g (\<lambda>r. (e, r))"
  unfolding stateless_def using effect_Pair by blast+

lemma stateless_afterLog [simp]: "stateless g f \<Longrightarrow> stateless g (afterLog l f)"
  unfolding stateless_def using effect_afterLog by blast

lemma stateless_orReturn [simp]:
  "stateless g m \<Longrightarrow> stateless g k \<Longrightarrow> stateless g (\<lambda>r. orReturn (m r) k)"
  unfolding stateless_def using effect_orReturn by blast

lemma stateless_if [simp]:
  "stateless g f \<Longrightarrow> stateless g h \<Longrightarrow> stateless g (\<lambda>r. if b then f r else h r)"
  by (cases b) simp_all

lemma stateless_case_option [simp]:
  "stateless g f \<Longrightarrow> (\<And>x. stateless g (h x)) \<Longrightarrow>
   stateless g (\<lambda>r. case opt of None \<Rightarrow> f r | Some x \<Rightarrow> h x r)"
  by (cases opt) simp_all

text \<open>A stateless call extends the stream and the log, and does the same in every state
  of the same configuration.\<close>

lemma stateless_run:
  assumes "stateless (config r) f"
  shows "emitted (snd (f r)) = emitted r @ instrsOf f r"
    and "logged (snd (f r)) = logged r @ logsOf f r"
    and "config (snd (f r)) = config r"
  using assms unfolding stateless_def effect_def instrsOf_def logsOf_def by auto

lemma stateless_same:
  assumes "stateless (config r) f" and "config r' = config r"
  shows "errOf f r' = errOf f r" and "instrsOf f r' = instrsOf f r" and "logsOf f r' = logsOf f r"
  using assms unfolding stateless_def by (auto dest: effect_run)

subsection \<open>Decomposing a run\<close>

lemma run_orReturn [simp]:
  assumes "stateless (config r) m" and "stateless (config r) k"
  shows "errOf (\<lambda>r. orReturn (m r) k) r = (if errOf m r = None then errOf k r else errOf m r)"
    and "instrsOf (\<lambda>r. orReturn (m r) k) r =
           instrsOf m r @ (if errOf m r = None then instrsOf k r else [])"
    and "logsOf (\<lambda>r. orReturn (m r) k) r =
           logsOf m r @ (if errOf m r = None then logsOf k r else [])"
proof -
  from assms obtain e1 t1 l1 e2 t2 l2
    where m: "effect (config r) m e1 t1 l1" and k: "effect (config r) k e2 t2 l2"
    unfolding stateless_def by blast
  note c = effect_orReturn [OF m k]
  show "errOf (\<lambda>r. orReturn (m r) k) r = (if errOf m r = None then errOf k r else errOf m r)"
    using effect_run(1) [OF c refl] effect_run(1) [OF m refl] effect_run(1) [OF k refl]
    by simp
  show "instrsOf (\<lambda>r. orReturn (m r) k) r =
           instrsOf m r @ (if errOf m r = None then instrsOf k r else [])"
    using effect_run(2) [OF c refl] effect_run(2) [OF m refl] effect_run(2) [OF k refl]
      effect_run(1) [OF m refl]
    by simp
  show "logsOf (\<lambda>r. orReturn (m r) k) r =
           logsOf m r @ (if errOf m r = None then logsOf k r else [])"
    using effect_run(3) [OF c refl] effect_run(3) [OF m refl] effect_run(3) [OF k refl]
      effect_run(1) [OF m refl]
    by simp
qed

lemma run_emit [simp]:
  "errOf (emit sz i) r = (if fits sz r i then None else Some BufferOverflow)"
  "instrsOf (emit sz i) r = (if fits sz r i then [i] else [])"
  "logsOf (emit sz i) r = []"
  using effect_run [OF effect_emit refl, of sz i r]
  by (auto simp: fits_def config_def)

lemma run_emit_selector [simp]:
  "errOf (\<lambda>r. emit sz (SelectMountPoint (MountPointSelector r) t) r) r =
     (if fits sz r (SelectMountPoint (MountPointSelector r) t) then None else Some BufferOverflow)"
  "instrsOf (\<lambda>r. emit sz (SelectMountPoint (MountPointSelector r) t) r) r =
     (if fits sz r (SelectMountPoint (MountPointSelector r) t)
      then [SelectMountPoint (MountPointSelector r) t] else [])"
  "logsOf (\<lambda>r. emit sz (SelectMountPoint (MountPointSelector r) t) r) r = []"
  using effect_run [OF effect_emit_selector refl, of sz t r]
  by (auto simp: fits_def config_def)

lemma run_flush [simp]:
  "errOf flushInstructionList r = None"
  "instrsOf flushInstructionList r = []"
  "logsOf flushInstructionList r = []"
  using effect_run [OF effect_flush refl, of r] by auto

lemma run_Pair [simp]:
  "errOf (Pair e) r = e" "instrsOf (Pair e) r = []" "logsOf (Pair e) r = []"
  "errOf (\<lambda>r. (e, r)) r = e" "instrsOf (\<lambda>r. (e, r)) r = []" "logsOf (\<lambda>r. (e, r)) r = []"
  by (simp_all add: errOf_def instrsOf_def logsOf_def)

lemma run_if [simp]:
  "errOf (\<lambda>r. if b then f r else h r) r = (if b then errOf f r else errOf h r)"
  "instrsOf (\<lambda>r. if b then f r else h r) r = (if b then instrsOf f r else instrsOf h r)"
  "logsOf (\<lambda>r. if b then f r else h r) r = (if b then logsOf f r else logsOf h r)"
  by (simp_all add: errOf_def instrsOf_def logsOf_def)

lemma run_afterLog [simp]:
  assumes "stateless (config r) f"
  shows "errOf (afterLog l f) r = errOf f r"
    and "instrsOf (afterLog l f) r = instrsOf f r"
    and "logsOf (afterLog l f) r = l # logsOf f r"
proof -
  from assms obtain e tr lg where f: "effect (config r) f e tr lg"
    unfolding stateless_def by blast
  show "errOf (afterLog l f) r = errOf f r"
    using effect_run(1) [OF effect_afterLog [OF f] refl] effect_run(1) [OF f refl] by simp
  show "instrsOf (afterLog l f) r = instrsOf f r"
    using effect_run(2) [OF effect_afterLog [OF f] refl] effect_run(2) [OF f refl] by simp
  show "logsOf (afterLog l f) r = l # logsOf f r"
    using effect_run(3) [OF effect_afterLog [OF f] refl] effect_run(3) [OF f refl] by simp
qed

subsection \<open>The functions as compositions of steps\<close>

lemma writeAttrs_unfold:
  "writeAttrs sz [] = Pair None"
  "writeAttrs sz (a # as) =
     (\<lambda>r. orReturn (writeSetAttrStr sz (Key a) (Val a) r) (writeAttrs sz as))"
  by (rule ext, simp)+

lemma writeEventListeners_unfold:
  "writeEventListeners sz p [] = Pair None"
  "writeEventListeners sz p (hs # hss) =
    (\<lambda>r. orReturn (writeSetEventListener sz p (EventType hs) (Capture hs) (Passive hs) r)
       (writeEventListeners sz p hss))"
  by (rule ext, simp)+

lemma visitSyncNode_unfold:
  "visitSyncNode sz bo n positionID =
     afterLog (LogText ''visitSyncNode'')
       (case Type n of
          ElementNode \<Rightarrow>
            (\<lambda>r. orReturn (writeSetElement sz (Data n) r) (visitSyncElementEtc sz bo n positionID))
        | TextNode \<Rightarrow> writeSetText sz (Data n)
        | CommentNode \<Rightarrow> writeSetComment sz (Data n)
        | DocumentNode \<Rightarrow> Pair (Some (UnknownNodeType (Type n))))"
  by (rule ext) (simp add: visitSyncNode.simps afterLog_def Let_def split: VGNodeType.splits)

lemma visitSyncElementEtc_unfold:
  "visitSyncElementEtc sz bo n positionID = (\<lambda>r.
     orReturn (writeAttrs sz (Attr n) r) (\<lambda>r.
     orReturn (writeRemoveOtherAttrs sz r) (\<lambda>r.
     orReturn (if length (DOMEventHandlerSpecList n) > 0
               then writeEventListeners sz positionID (DOMEventHandlerSpecList n) r
               else (None, r)) (\<lambda>r.
     orReturn (writeRemoveOtherEventListeners sz positionID r) (\<lambda>r.
       case InnerHTML n of
         None \<Rightarrow>
          (if FirstChild n \<noteq> None then
             orReturn (writeMoveToFirstChild sz r) (\<lambda>r.
             orReturn (visitSyncChildren sz bo (FirstChild n) positionID 1 r) (\<lambda>r.
             orReturn (writeMoveToParent sz r) (\<lambda>r.
               (None, r))))
           else (None, r))
       | Some html \<Rightarrow> writeSetInnerHTML sz html r)))))"
  by (rule ext) (simp add: visitSyncElementEtc.simps)

lemma visitSyncChildren_unfold:
  "visitSyncChildren sz bo None positionID childIndex = Pair None"
  "visitSyncChildren sz bo (Some c) positionID childIndex = (\<lambda>r.
           orReturn (visitSyncNode sz bo c (positionID @ ''_'' @ decimal childIndex) r) (\<lambda>r.
           orReturn (writeMoveToNextSibling sz r)
             (visitSyncChildren sz bo (NextSibling c) positionID (childIndex + 1))))"
  by (rule ext, simp add: visitSyncChildren.simps Let_def)+

lemma visitHead_unfold: "visitHead bo n p = afterLog (LogText ''TODO: visitHead'') (Pair None)"
  by (rule ext) (simp add: visitHead_def afterLog_def)

lemma visitBody_unfold: "visitBody bo n p = afterLog (LogText ''TODO: visitBody'') (Pair None)"
  by (rule ext) (simp add: visitBody_def afterLog_def)

lemma visitMount_unfold:
  "visitMount sz bo n p =
     afterLog (LogText ''visitMount got here'')
       (\<lambda>r. orReturn ((\<lambda>r. emit sz (SelectMountPoint (MountPointSelector r) (Data n)) r) r)
          (visitSyncElementEtc sz bo n p))"
  by (rule ext) (simp add: visitMount_def afterLog_def Let_def logPrintf_def)

lemma visitFirstChildren_unfold:
  "visitFirstChildren bo None p = Pair None"
  "visitFirstChildren bo (Some c) p = (\<lambda>r.
     if ToLower (Data c) = ''head'' then
        orReturn (visitHead bo c p r) (visitFirstChildren bo (NextSibling c) p)
      else if ToLower (Data c) = ''body'' then
        orReturn (visitBody bo c p r) (visitFirstChildren bo (NextSibling c) p)
      else (Some (UnexpectedTagInsideHtml (Data c) c), r))"
  by (rule ext, simp)+

lemma visitFirst_unfold:
  "visitFirst sz bo n p =
     afterLog (LogText visitFirstTodo)
       (afterLog (LogText ''JSRenderer.visitFirst'')
          (\<lambda>r. if Type n \<noteq> ElementNode then (Some RootOfComponentMustBeElement, r)
                else orReturn (writeClearEl sz r) (\<lambda>r.
                  if ToLower (Data n) = ''html'' then visitFirstChildren bo (FirstChild n) p r
                  else visitMount sz bo n p r)))"
  by (rule ext) (simp add: visitFirst_def afterLog_def Let_def)

lemma Render_unfold:
  assumes "Doc b = Some d" and "Type d = ElementNode"
  shows "(\<lambda>r. Render True sz r (Some b)) =
     afterLog (LogBuildOut b) (afterLog (LogEl d)
       (\<lambda>r. orReturn (visitFirst sz b d ''0'' r) (\<lambda>r.
             orReturn (flushInstructionList r) (Pair None))))"
  using assms by (intro ext) (simp add: Render_def afterLog_def Let_def)

subsection \<open>Every function of the pass is stateless\<close>

lemma stateless_writeAttrs [simp]: "stateless g (writeAttrs sz as)"
  by (induction as) (simp_all add: writeAttrs_unfold)

lemma stateless_writeEventListeners [simp]: "stateless g (writeEventListeners sz p hss)"
  by (induction hss) (simp_all add: writeEventListeners_unfold)

lemma stateless_visitSync [simp]:
  "stateless g (visitSyncNode sz bo n p)"
  "stateless g (visitSyncElementEtc sz bo n p)"
  "stateless g (visitSyncChildren sz bo nchild p i)"
proof (induction sz bo n p "r::JSRenderer" and sz bo n p "r::JSRenderer" and
    sz bo nchild p i "r::JSRenderer"
    rule: visitSyncNode_visitSyncElementEtc_visitSyncChildren.induct)
  case (1 sz bo n positionID r0)
  then show ?case
    unfolding visitSyncNode_unfold by (cases "Type n") simp_all
next
  case (2 sz bo n positionID r)
  show ?case
  proof (cases "InnerHTML n")
    case None
    show ?thesis
    proof (cases "FirstChild n")
      case N: None
      show ?thesis unfolding visitSyncElementEtc_unfold [of sz bo n] using None N by simp
    next
      case (Some c)
      with None 2 have "stateless g (visitSyncChildren sz bo (FirstChild n) positionID 1)"
        by simp
      then show ?thesis unfolding visitSyncElementEtc_unfold [of sz bo n] using None Some by simp
    qed
  next
    case (Some html)
    then show ?thesis unfolding visitSyncElementEtc_unfold [of sz bo n] by simp
  qed
next
  case (3 sz bo nchild positionID childIndex r)
  show ?case
  proof (cases nchild)
    case None
    then show ?thesis by (simp add: visitSyncChildren_unfold)
  next
    case (Some c)
    with 3 have "stateless g (visitSyncNode sz bo c (positionID @ ''_'' @ decimal childIndex))"
      and "stateless g (visitSyncChildren sz bo (NextSibling c) positionID (childIndex + 1))"
      by simp_all
    then show ?thesis unfolding Some visitSyncChildren_unfold by simp
  qed
qed

lemma stateless_visitHead [simp]: "stateless g (visitHead bo n p)"
  by (simp add: visitHead_unfold)

lemma stateless_visitBody [simp]: "stateless g (visitBody bo n p)"
  by (simp add: visitBody_unfold)

lemma stateless_visitMount [simp]: "stateless g (visitMount sz bo n p)"
  by (simp add: visitMount_unfold)

lemma stateless_visitFirstChildren [simp]: "stateless g (visitFirstChildren bo nchild p)"
  by (induction nchild rule: siblings.induct) (simp_all add: visitFirstChildren_unfold)

lemma stateless_visitFirst [simp]: "stateless g (visitFirst sz bo n p)"
  by (simp add: visitFirst_unfold)

lemma stateless_Render [simp]: "stateless g (\<lambda>r. Render js sz r bo)"
proof (cases "js \<and> (\<exists>b d. bo = Some b \<and> Doc b = Some d \<and> Type d = ElementNode)")
  case True
  then obtain b d where "js" "bo = Some b" "Doc b = Some d" "Type d = ElementNode" by blast
  then show ?thesis using Render_unfold [of b d sz] by simp
next
  case False
  have "\<exists>e. (\<lambda>r. Render js sz r bo) = Pair e"
  proof (cases bo)
    case None
    then show ?thesis by (cases js) (auto simp: Render_def fun_eq_iff)
  next
    case (Some b)
    show ?thesis
    proof (cases "Doc b")
      case None
      with Some show ?thesis by (cases js) (auto simp: Render_def fun_eq_iff)
    next
      case (Some d)
      with False \<open>bo = Some b\<close> show ?thesis
        by (cases js) (auto simp: Render_def fun_eq_iff)
    qed
  qed
  then show ?thesis by auto
qed

subsection \<open>Runs of the loops\<close>

lemma takeWhile_append_all:
  "takeWhile P (xs @ ys) = (if list_all P xs then xs @ takeWhile P ys else takeWhile P xs)"
  by (induction xs) simp_all

lemma takeWhile_map_all: "\<forall>x\<in>set xs. P (f x) \<Longrightarrow> takeWhile P (map f xs) = map f xs"
  by (induction xs) simp_all

lemma run_writeAttrs:
  "errOf (writeAttrs sz as) r =
     (if list_all (fits sz r) (map (\<lambda>a. SetAttrStr (Key a) (Val a)) as) then None
      else Some BufferOverflow)"
  "instrsOf (writeAttrs sz as) r =
     takeWhile (fits sz r) (map (\<lambda>a. SetAttrStr (Key a) (Val a)) as)"
  "logsOf (writeAttrs sz as) r = []"
  by (induction as) (simp_all add: writeAttrs_unfold)

lemma run_writeEventListeners:
  "errOf (writeEventListeners sz p hss) r =
     (if list_all (fits sz r)
           (map (\<lambda>hs. SetEventListener p (EventType hs) (Capture hs) (Passive hs)) hss)
      then None else Some BufferOverflow)"
  "instrsOf (writeEventListeners sz p hss) r =
     takeWhile (fits sz r)
       (map (\<lambda>hs. SetEventListener p (EventType hs) (Capture hs) (Passive hs)) hss)"
  "logsOf (writeEventListeners sz p hss) r = []"
  by (induction hss) (simp_all add: writeEventListeners_unfold)

lemmas run_loops = run_writeAttrs run_writeEventListeners

lemma run_header:
  assumes "errOf (visitSyncElementEtc sz bo n p) r = None"
  shows "list_all (fits sz r) (attrListenerInstrs n p)"
  using assms
  by (simp add: visitSyncElementEtc_unfold [of sz bo n p] run_loops attrListenerInstrs_def
      split: if_splits)

lemma instrs_header:
  assumes "list_all (fits sz r) (attrListenerInstrs n p)"
  shows "prefix (attrListenerInstrs n p) (instrsOf (visitSyncElementEtc sz bo n p) r)"
  using assms
  by (simp add: visitSyncElementEtc_unfold [of sz bo n p] run_loops attrListenerInstrs_def
      takeWhile_map_all list_all_iff)

lemma run_innerHTML:
  assumes "InnerHTML n = Some html"
  shows "instrsOf (visitSyncElementEtc sz bo n p) r =
           takeWhile (fits sz r) (attrListenerInstrs n p @ [SetInnerHTML html])"
    and "errOf (visitSyncElementEtc sz bo n p) r =
           (if list_all (fits sz r) (attrListenerInstrs n p @ [SetInnerHTML html]) then None
            else Some BufferOverflow)"
  using assms
  by (auto simp add: visitSyncElementEtc_unfold [of sz bo n p] run_loops attrListenerInstrs_def
      takeWhile_append_all list_all_iff takeWhile_map_all)

lemma run_children:
  assumes "errOf (visitSyncChildren sz bo nchild p i) r = None"
  shows "instrsOf (visitSyncChildren sz bo nchild p i) r =
           concat (map (\<lambda>(j, c). instrsOf (visitSyncNode sz bo c (p @ ''_'' @ decimal j)) r @
                                 [MoveToNextSibling])
                    (enumerate i (siblings nchild)))
     \<and> (\<forall>(j, c) \<in> set (enumerate i (siblings nchild)).
           errOf (visitSyncNode sz bo c (p @ ''_'' @ decimal j)) r = None)"
  using assms
proof (induction nchild arbitrary: i rule: siblings.induct)
  case 1
  then show ?case by (simp add: visitSyncChildren_unfold)
next
  case (2 c)
  from "2.prems" have
    n: "errOf (visitSyncNode sz bo c (p @ ''_'' @ decimal i)) r = None" and
    f: "fits sz r MoveToNextSibling" and
    k: "errOf (visitSyncChildren sz bo (NextSibling c) p (i + 1)) r = None"
    by (simp_all add: visitSyncChildren_unfold split: if_splits)
  from "2.IH" [OF k] n f show ?case
    by (simp add: visitSyncChildren_unfold)
qed

lemma run_element:
  assumes "InnerHTML n = None" and "errOf (visitSyncElementEtc sz bo n p) r = None"
  shows "instrsOf (visitSyncElementEtc sz bo n p) r =
           attrListenerInstrs n p @
           (if FirstChild n = None then []
            else [MoveToFirstChild] @
                 concat (map (\<lambda>(i, c).
                     instrsOf (visitSyncNode sz bo c (p @ ''_'' @ decimal i)) r @
                     [MoveToNextSibling])
                   (enumerate 1 (siblings (FirstChild n)))) @
                 [MoveToParent])"
    and "\<forall>(i, c) \<in> set (enumerate 1 (siblings (FirstChild n))).
           errOf (visitSyncNode sz bo c (p @ ''_'' @ decimal i)) r = None"
proof -
  note e = assms(2)
  have h: "list_all (fits sz r) (attrListenerInstrs n p)"
    using e by (rule run_header)
  have "instrsOf (visitSyncElementEtc sz bo n p) r =
           attrListenerInstrs n p @
           (if FirstChild n = None then []
            else [MoveToFirstChild] @
                 concat (map (\<lambda>(i, c).
                     instrsOf (visitSyncNode sz bo c (p @ ''_'' @ decimal i)) r @
                     [MoveToNextSibling])
                   (enumerate 1 (siblings (FirstChild n)))) @
                 [MoveToParent])
     \<and> (\<forall>(i, c) \<in> set (enumerate 1 (siblings (FirstChild n))).
           errOf (visitSyncNode sz bo c (p @ ''_'' @ decimal i)) r = None)"
  proof (cases "FirstChild n")
    case None
    with assms(1) h show ?thesis
      by (simp add: visitSyncElementEtc_unfold [of sz bo n p] run_loops
          attrListenerInstrs_def takeWhile_map_all list_all_iff)
  next
    case (Some c)
    from e assms(1) Some h have
      k: "errOf (visitSyncChildren sz bo (FirstChild n) p 1) r = None"
      and f: "fits sz r MoveToFirstChild" "fits sz r MoveToParent"
      by (simp_all add: visitSyncElementEtc_unfold [of sz bo n p] run_loops
          attrListenerInstrs_def list_all_iff split: if_splits)
    from run_children [OF k] assms(1) Some h f k show ?thesis
      by (simp add: visitSyncElementEtc_unfold [of sz bo n p] run_loops
          attrListenerInstrs_def takeWhile_map_all list_all_iff)
  qed
  then show "instrsOf (visitSyncElementEtc sz bo n p) r =
           attrListenerInstrs n p @
           (if FirstChild n = None then []
            else [MoveToFirstChild] @
                 concat (map (\<lambda>(i, c).
                     instrsOf (visitSyncNode sz bo c (p @ ''_'' @ decimal i)) r @
                     [MoveToNextSibling])
                   (enumerate 1 (siblings (FirstChild n)))) @
                 [MoveToParent])"
    and "\<forall>(i, c) \<in> set (enumerate 1 (siblings (FirstChild n))).
           errOf (visitSyncNode sz bo c (p @ ''_'' @ decimal i)) r = None"
    by blast+
qed

lemma run_visitFirst_mount:
  assumes "Type n = ElementNode" and "ToLower (Data n) \<noteq> ''html''"
  shows "errOf (visitFirst sz bo n p) r =
           (if \<not> fits sz r ClearEl \<or> \<not> fits sz r (SelectMountPoint (MountPointSelector r) (Data n))
            then Some BufferOverflow else errOf (visitSyncElementEtc sz bo n p) r)"
    and "instrsOf (visitFirst sz bo n p) r =
           (if \<not> fits sz r ClearEl then []
            else if \<not> fits sz r (SelectMountPoint (MountPointSelector r) (Data n)) then [ClearEl]
            else [ClearEl, SelectMountPoint (MountPointSelector r) (Data n)] @
                 instrsOf (visitSyncElementEtc sz bo n p) r)"
  using assms by (simp_all add: visitFirst_unfold visitMount_unfold)

lemma run_Render:
  assumes "Doc b = Some d" and "Type d = ElementNode"
  shows "errOf (\<lambda>r. Render True sz r (Some b)) r = errOf (visitFirst sz b d ''0'') r"
    and "instrsOf (\<lambda>r. Render True sz r (Some b)) r = instrsOf (visitFirst sz b d ''0'') r"
  by (simp_all add: Render_unfold [OF assms])

lemma logs_visitSync:
  "set (logsOf (visitSyncNode sz bo n p) r0) \<subseteq> {LogText ''visitSyncNode''}"
  "set (logsOf (visitSyncElementEtc sz bo n p) r0) \<subseteq> {LogText ''visitSyncNode''}"
  "set (logsOf (visitSyncChildren sz bo nchild p i) r0) \<subseteq> {LogText ''visitSyncNode''}"
proof (induction sz bo n p "r::JSRenderer" and sz bo n p "r::JSRenderer" and
    sz bo nchild p i "r::JSRenderer"
    rule: visitSyncNode_visitSyncElementEtc_visitSyncChildren.induct)
  case (1 sz bo n positionID r0)
  then show ?case
    unfolding visitSyncNode_unfold by (cases "Type n") simp_all
next
  case (2 sz bo n positionID r)
  show ?case
  proof (cases "InnerHTML n")
    case None
    show ?thesis
    proof (cases "FirstChild n")
      case N: None
      show ?thesis unfolding visitSyncElementEtc_unfold [of sz bo n] using None N
        by (simp add: run_loops)
    next
      case (Some c)
      with None 2 have
        "set (logsOf (visitSyncChildren sz bo (FirstChild n) positionID 1) r0)
           \<subseteq> {LogText ''visitSyncNode''}"
        by simp
      then show ?thesis unfolding visitSyncElementEtc_unfold [of sz bo n] using None Some
        by (auto simp add: run_loops)
    qed
  next
    case (Some html)
    then show ?thesis unfolding visitSyncElementEtc_unfold [of sz bo n]
      by (simp add: run_loops)
  qed
next
  case (3 sz bo nchild positionID childIndex r)
  show ?case
  proof (cases nchild)
    case None
    then show ?thesis by (simp add: visitSyncChildren_unfold)
  next
    case (Some c)
    with 3 have
      "set (logsOf (visitSyncNode sz bo c (positionID @ ''_'' @ decimal childIndex)) r0)
         \<subseteq> {LogText ''visitSyncNode''}"
      and "set (logsOf (visitSyncChildren sz bo (NextSibling c) positionID (childIndex + 1)) r0)
         \<subseteq> {LogText ''visitSyncNode''}"
      by simp_all
    then show ?thesis unfolding Some visitSyncChildren_unfold by auto
  qed
qed

lemma run_visitFirstChildren:
  "errOf (visitFirstChildren bo nchild p) r =
     (case dropWhile isHeadOrBody (siblings nchild) of
        [] \<Rightarrow> None
      | c # cs \<Rightarrow> Some (UnexpectedTagInsideHtml (Data c) c))"
  "instrsOf (visitFirstChildren bo nchild p) r = []"
  "logsOf (visitFirstChildren bo nchild p) r =
     map (\<lambda>c. if ToLower (Data c) = ''head'' then LogText ''TODO: visitHead''
               else LogText ''TODO: visitBody'')
       (takeWhile isHeadOrBody (siblings nchild))"
  by (induction nchild rule: siblings.induct)
    (simp_all add: visitFirstChildren_unfold visitHead_unfold visitBody_unfold isHeadOrBody_def)

section \<open>Properties\<close>

text \<open>
  C8. When the JS environment is not available, \<open>Render\<close> returns one error and leaves
  the renderer exactly as it was, whatever the build output is: the check comes before
  input validation, traversal and every write, so nothing is logged, written or flushed.
\<close>

theorem Render_js_unavailable:
  "Render False sz r bo = (Some JsEnvironmentNotAvailable, r)"
  by (simp add: Render_def)

text \<open>
  C1. Element synchronisation starts with the attribute and listener instructions:
  one \<open>SetAttrStr\<close> per attribute in list order, one \<open>RemoveOtherAttrs\<close>, one
  \<open>SetEventListener\<close> per handler spec with the node's position identifier, event type,
  capture and passive flags, and one \<open>RemoveOtherEventListeners\<close> with the position
  identifier (\<open>attrListenerInstrs\<close>; the two \<open>RemoveOther...\<close> instructions are there
  also when the lists are empty). Whenever each of these instructions fits the buffer, and
  so whenever \<open>visitSyncElementEtc\<close> returns no error, the instructions that the call
  adds to the stream begin with this sequence.
\<close>

theorem visitSyncElementEtc_attrs_then_listeners:
  "(list_all (fits sz r) (attrListenerInstrs n positionID) \<longrightarrow>
      prefix (attrListenerInstrs n positionID)
        (instrsOf (visitSyncElementEtc sz bo n positionID) r))
   \<and> (fst (visitSyncElementEtc sz bo n positionID r) = None \<longrightarrow>
      list_all (fits sz r) (attrListenerInstrs n positionID))
   \<and> emitted (snd (visitSyncElementEtc sz bo n positionID r)) =
       emitted r @ instrsOf (visitSyncElementEtc sz bo n positionID) r"
  using instrs_header [of sz r n positionID bo] run_header [of sz bo n positionID r]
    stateless_run(1) [of r "visitSyncElementEtc sz bo n positionID"]
  by (simp add: errOf_def)

theorem visitSyncElementEtc_attrs_then_listeners_witness:
  "list_all (fits exampleSz exampleRenderer) (attrListenerInstrs exampleSpan ''0_1'')
   \<and> fst (visitSyncElementEtc exampleSz exampleBuildOut exampleSpan ''0_1'' exampleRenderer) = None
   \<and> prefix [RemoveOtherAttrs, SetEventListener ''0_1'' ''click'' False True,
              RemoveOtherEventListeners ''0_1'']
        (instrsOf (visitSyncElementEtc exampleSz exampleBuildOut exampleSpan ''0_1'')
           exampleRenderer)"
proof -
  have h: "list_all (fits exampleSz exampleRenderer) (attrListenerInstrs exampleSpan ''0_1'')"
    by code_simp
  have s: "fst (visitSyncElementEtc exampleSz exampleBuildOut exampleSpan ''0_1'' exampleRenderer)
      = None"
    by code_simp
  have a: "attrListenerInstrs exampleSpan ''0_1'' =
      [RemoveOtherAttrs, SetEventListener ''0_1'' ''click'' False True,
       RemoveOtherEventListeners ''0_1'']"
    by code_simp
  from visitSyncElementEtc_attrs_then_listeners
    [of exampleSz exampleRenderer exampleSpan "''0_1''" exampleBuildOut] h s
  show ?thesis unfolding a by blast
qed

text \<open>
  C2. For an element with raw inner content, the instructions that
  \<open>visitSyncElementEtc\<close> adds are always a prefix of the attribute and listener
  instructions followed by \<open>SetInnerHTML\<close> with that content, and they are exactly this
  sequence when the call returns no error. So \<open>SetInnerHTML\<close> comes after the attribute
  and listener instructions, and neither \<open>MoveToFirstChild\<close> nor an instruction of a
  child is written, whatever children the node has.
\<close>

theorem visitSyncElementEtc_innerHTML:
  assumes "InnerHTML n = Some html"
  shows "prefix (instrsOf (visitSyncElementEtc sz bo n positionID) r)
           (attrListenerInstrs n positionID @ [SetInnerHTML html])
     \<and> (fst (visitSyncElementEtc sz bo n positionID r) = None \<longrightarrow>
          instrsOf (visitSyncElementEtc sz bo n positionID) r =
            attrListenerInstrs n positionID @ [SetInnerHTML html])
     \<and> MoveToFirstChild \<notin> set (instrsOf (visitSyncElementEtc sz bo n positionID) r)
     \<and> emitted (snd (visitSyncElementEtc sz bo n positionID r)) =
         emitted r @ instrsOf (visitSyncElementEtc sz bo n positionID) r"
proof -
  let ?L = "attrListenerInstrs n positionID @ [SetInnerHTML html]"
  have i: "instrsOf (visitSyncElementEtc sz bo n positionID) r = takeWhile (fits sz r) ?L"
    and e: "errOf (visitSyncElementEtc sz bo n positionID) r =
              (if list_all (fits sz r) ?L then None else Some BufferOverflow)"
    using run_innerHTML [OF assms] by blast+
  have p: "prefix (instrsOf (visitSyncElementEtc sz bo n positionID) r) ?L"
    unfolding i by (rule takeWhile_is_prefix)
  have "MoveToFirstChild \<notin> set ?L"
    by (auto simp: attrListenerInstrs_def)
  with set_mono_prefix [OF p]
  have "MoveToFirstChild \<notin> set (instrsOf (visitSyncElementEtc sz bo n positionID) r)"
    by blast
  moreover note p
  moreover have "fst (visitSyncElementEtc sz bo n positionID r) = None \<longrightarrow>
      instrsOf (visitSyncElementEtc sz bo n positionID) r = ?L"
    using e unfolding i errOf_def by (auto simp: list_all_iff split: if_splits)
  moreover have "emitted (snd (visitSyncElementEtc sz bo n positionID r)) =
         emitted r @ instrsOf (visitSyncElementEtc sz bo n positionID) r"
    by (rule stateless_run(1)) simp
  ultimately show ?thesis by blast
qed

theorem visitSyncElementEtc_innerHTML_witness:
  "InnerHTML exampleRaw = Some ''<b>x</b>'' \<and> FirstChild exampleRaw = Some exampleText
   \<and> fst (visitSyncElementEtc exampleSz exampleBuildOut exampleRaw ''0_3'' exampleRenderer) = None
   \<and> instrsOf (visitSyncElementEtc exampleSz exampleBuildOut exampleRaw ''0_3'') exampleRenderer =
       [SetAttrStr ''class'' ''b'', RemoveOtherAttrs, RemoveOtherEventListeners ''0_3'',
        SetInnerHTML ''<b>x</b>'']"
proof -
  have h: "InnerHTML exampleRaw = Some ''<b>x</b>''"
    and c: "FirstChild exampleRaw = Some exampleText"
    by (simp_all add: exampleRaw_def)
  have s: "fst (visitSyncElementEtc exampleSz exampleBuildOut exampleRaw ''0_3'' exampleRenderer)
      = None"
    by code_simp
  have a: "attrListenerInstrs exampleRaw ''0_3'' =
      [SetAttrStr ''class'' ''b'', RemoveOtherAttrs, RemoveOtherEventListeners ''0_3'']"
    by code_simp
  from visitSyncElementEtc_innerHTML
    [OF h, of exampleSz exampleBuildOut "''0_3''" exampleRenderer] s h c
  show ?thesis unfolding a by simp
qed

text \<open>
  C3. For an element without raw inner content on which \<open>visitSyncElementEtc\<close> returns
  no error: after the attribute and listener instructions, a node without children adds
  nothing; a node with children adds \<open>MoveToFirstChild\<close>, then for the children in
  sibling order, counted from 1, the instructions of \<open>visitSyncNode\<close> on the child with
  the position identifier of the parent followed by \<open>_\<close> and the decimal index, each
  followed by \<open>MoveToNextSibling\<close>, and at the end \<open>MoveToParent\<close>. Each of these
  child synchronisations returns no error. (What a call adds does not depend on the state
  it starts in, \<open>stateless_same\<close>; so the instructions of each child are given for the
  start state \<open>r\<close>.) The root is synchronised with the position
  identifier \<open>0\<close>: for a root element that is not \<open>html\<close>, a successful \<open>Render\<close>
  adds \<open>ClearEl\<close>, \<open>SelectMountPoint\<close> and the instructions of
  \<open>visitSyncElementEtc\<close> on the root at \<open>0\<close>.
\<close>

theorem visitSyncElementEtc_children:
  "(InnerHTML n = None \<and> fst (visitSyncElementEtc sz bo n positionID r) = None \<longrightarrow>
      instrsOf (visitSyncElementEtc sz bo n positionID) r =
        attrListenerInstrs n positionID @
        (if FirstChild n = None then []
         else [MoveToFirstChild] @
              concat (map (\<lambda>(i, c).
                  instrsOf (visitSyncNode sz bo c (positionID @ ''_'' @ decimal i)) r @
                  [MoveToNextSibling])
                (enumerate 1 (siblings (FirstChild n)))) @
              [MoveToParent])
      \<and> (\<forall>(i, c) \<in> set (enumerate 1 (siblings (FirstChild n))).
            fst (visitSyncNode sz bo c (positionID @ ''_'' @ decimal i) r) = None))
   \<and> (Doc b = Some d \<and> Type d = ElementNode \<and> ToLower (Data d) \<noteq> ''html'' \<and>
        fst (Render True sz r (Some b)) = None \<longrightarrow>
      instrsOf (\<lambda>r. Render True sz r (Some b)) r =
        [ClearEl, SelectMountPoint (MountPointSelector r) (Data d)] @
        instrsOf (visitSyncElementEtc sz b d ''0'') r)"
proof (intro conjI impI)
  assume a: "InnerHTML n = None \<and> fst (visitSyncElementEtc sz bo n positionID r) = None"
  then have e: "errOf (visitSyncElementEtc sz bo n positionID) r = None"
    by (simp add: errOf_def)
  from a have i: "InnerHTML n = None" by simp
  from run_element(1) [OF i e]
  show "instrsOf (visitSyncElementEtc sz bo n positionID) r =
        attrListenerInstrs n positionID @
        (if FirstChild n = None then []
         else [MoveToFirstChild] @
              concat (map (\<lambda>(i, c).
                  instrsOf (visitSyncNode sz bo c (positionID @ ''_'' @ decimal i)) r @
                  [MoveToNextSibling])
                (enumerate 1 (siblings (FirstChild n)))) @
              [MoveToParent])" .
  from run_element(2) [OF i e]
  show "\<forall>(i, c) \<in> set (enumerate 1 (siblings (FirstChild n))).
            fst (visitSyncNode sz bo c (positionID @ ''_'' @ decimal i) r) = None"
    by (simp add: errOf_def)
next
  assume a: "Doc b = Some d \<and> Type d = ElementNode \<and> ToLower (Data d) \<noteq> ''html'' \<and>
        fst (Render True sz r (Some b)) = None"
  then have d: "Doc b = Some d" "Type d = ElementNode" and h: "ToLower (Data d) \<noteq> ''html''"
    and s: "errOf (\<lambda>r. Render True sz r (Some b)) r = None"
    by (simp_all add: errOf_def)
  from s have v: "errOf (visitFirst sz b d ''0'') r = None"
    by (simp add: run_Render [OF d])
  from v show "instrsOf (\<lambda>r. Render True sz r (Some b)) r =
        [ClearEl, SelectMountPoint (MountPointSelector r) (Data d)] @
        instrsOf (visitSyncElementEtc sz b d ''0'') r"
    by (simp add: run_Render [OF d] run_visitFirst_mount [OF d(2) h] split: if_splits)
qed

theorem visitSyncElementEtc_children_witness:
  "InnerHTML exampleDiv = None
   \<and> fst (visitSyncElementEtc exampleSz exampleBuildOut exampleDiv ''0'' exampleRenderer) = None
   \<and> enumerate 1 (siblings (FirstChild exampleDiv)) = [(1, exampleSpan), (2, exampleComment)]
   \<and> Doc exampleBuildOut = Some exampleDiv \<and> Type exampleDiv = ElementNode
   \<and> ToLower (Data exampleDiv) \<noteq> ''html''
   \<and> fst (Render True exampleSz exampleRenderer (Some exampleBuildOut)) = None
   \<and> instrsOf (visitSyncElementEtc exampleSz exampleBuildOut exampleDiv ''0'') exampleRenderer =
       [SetAttrStr ''id'' ''a'', RemoveOtherAttrs, RemoveOtherEventListeners ''0'',
        MoveToFirstChild] @
       instrsOf (visitSyncNode exampleSz exampleBuildOut exampleSpan ''0_1'') exampleRenderer @
       [MoveToNextSibling] @
       instrsOf (visitSyncNode exampleSz exampleBuildOut exampleComment ''0_2'') exampleRenderer @
       [MoveToNextSibling, MoveToParent]
   \<and> instrsOf (\<lambda>r. Render True exampleSz r (Some exampleBuildOut)) exampleRenderer =
       [ClearEl, SelectMountPoint ''#app'' ''div''] @
       instrsOf (visitSyncElementEtc exampleSz exampleBuildOut exampleDiv ''0'') exampleRenderer"
proof -
  have h1: "InnerHTML exampleDiv = None" by (simp add: exampleDiv_def)
  have h2: "fst (visitSyncElementEtc exampleSz exampleBuildOut exampleDiv ''0'' exampleRenderer)
      = None"
    by code_simp
  have h3: "enumerate 1 (siblings (FirstChild exampleDiv)) = [(1, exampleSpan), (2, exampleComment)]"
    by code_simp
  have h4: "Doc exampleBuildOut = Some exampleDiv" "Type exampleDiv = ElementNode"
    "Data exampleDiv = ''div''" "FirstChild exampleDiv \<noteq> None"
    "MountPointSelector exampleRenderer = ''#app''"
    by (simp_all add: exampleBuildOut_def exampleDiv_def exampleRenderer_def)
  have h5: "ToLower (Data exampleDiv) \<noteq> ''html''" by code_simp
  have h6: "fst (Render True exampleSz exampleRenderer (Some exampleBuildOut)) = None"
    by code_simp
  have a: "attrListenerInstrs exampleDiv ''0'' =
      [SetAttrStr ''id'' ''a'', RemoveOtherAttrs, RemoveOtherEventListeners ''0'']"
    by code_simp
  have d: "decimal (Suc 0) = ''1''" "decimal 2 = ''2''" by code_simp+
  from visitSyncElementEtc_children
    [of exampleDiv exampleSz exampleBuildOut "''0''" exampleRenderer exampleBuildOut exampleDiv]
    h1 h2 h4 h5 h6
  show ?thesis unfolding h3 a by (simp add: d)
qed

text \<open>
  C4. When the build output is nil, its \<open>Doc\<close> is nil, or the type of \<open>Doc\<close> is not
  \<open>ElementNode\<close> (\<open>invalidBuildOut\<close>), \<open>Render\<close> returns an error and leaves the
  renderer as it was: nothing is written, flushed or logged. With the JS environment
  available the errors are the three of the input checks. The check at the start of
  \<open>visitFirst\<close> returns its error before any write: the instruction list is unchanged.
\<close>

theorem Render_rejects_invalid_input:
  "(invalidBuildOut bo \<longrightarrow>
      fst (Render js sz r bo) \<noteq> None \<and> snd (Render js sz r bo) = r)
   \<and> Render True sz r None = (Some BuildOutIsNil, r)
   \<and> (Doc b = None \<longrightarrow> Render True sz r (Some b) = (Some BuildOutDocIsNil, r))
   \<and> (Doc b = Some d \<and> Type d \<noteq> ElementNode \<longrightarrow>
        Render True sz r (Some b) = (Some (BuildOutDocTypeNotElementNode (Type d)), r))
   \<and> (Type n \<noteq> ElementNode \<longrightarrow>
        fst (visitFirst sz b n positionID r) = Some RootOfComponentMustBeElement \<and>
        instructionList (snd (visitFirst sz b n positionID r)) = instructionList r)"
  by (auto simp: Render_def invalidBuildOut_def visitFirst_def logPrintf_def Let_def
      split: option.splits)

theorem Render_rejects_invalid_input_witness:
  "invalidBuildOut (Some \<lparr>Doc = Some exampleText\<rparr>)
   \<and> Doc \<lparr>Doc = None\<rparr> = None
   \<and> Doc \<lparr>Doc = Some exampleText\<rparr> = Some exampleText \<and> Type exampleText \<noteq> ElementNode
   \<and> Render False exampleSz exampleRenderer (Some \<lparr>Doc = Some exampleText\<rparr>) =
       (Some JsEnvironmentNotAvailable, exampleRenderer)
   \<and> Render True exampleSz exampleRenderer (Some \<lparr>Doc = None\<rparr>) =
       (Some BuildOutDocIsNil, exampleRenderer)
   \<and> Render True exampleSz exampleRenderer (Some \<lparr>Doc = Some exampleText\<rparr>) =
       (Some (BuildOutDocTypeNotElementNode TextNode), exampleRenderer)
   \<and> fst (visitFirst exampleSz \<lparr>Doc = Some exampleText\<rparr> exampleText ''0'' exampleRenderer) =
       Some RootOfComponentMustBeElement
   \<and> instructionList
        (snd (visitFirst exampleSz \<lparr>Doc = Some exampleText\<rparr> exampleText ''0'' exampleRenderer)) =
       instructionList exampleRenderer"
proof -
  have h: "invalidBuildOut (Some \<lparr>Doc = Some exampleText\<rparr>)"
    "Type exampleText \<noteq> ElementNode" "Type exampleText = TextNode"
    by (simp_all add: invalidBuildOut_def exampleText_def)
  have j: "Render False exampleSz exampleRenderer (Some \<lparr>Doc = Some exampleText\<rparr>) =
       (Some JsEnvironmentNotAvailable, exampleRenderer)"
    by (simp add: Render_def)
  from Render_rejects_invalid_input
    [where bo = "Some \<lparr>Doc = Some exampleText\<rparr>" and js = True and sz = exampleSz
       and r = exampleRenderer and b = "\<lparr>Doc = None\<rparr>" and d = exampleText
       and n = exampleText and positionID = "''0''"]
    Render_rejects_invalid_input
    [where bo = "Some \<lparr>Doc = Some exampleText\<rparr>" and js = True and sz = exampleSz
       and r = exampleRenderer and b = "\<lparr>Doc = Some exampleText\<rparr>" and d = exampleText
       and n = exampleText and positionID = "''0''"]
    h j
  show ?thesis by simp
qed

text \<open>
  C5. For a root element whose tag is not \<open>html\<close> in any letter case, a \<open>visitFirst\<close>
  that returns no error adds \<open>ClearEl\<close>, then \<open>SelectMountPoint\<close> with the renderer's
  mount point selector and the root's tag, then the instructions of
  \<open>visitSyncElementEtc\<close> on the root, and nothing else; \<open>visitHead\<close> and
  \<open>visitBody\<close> do not run (their log lines do not appear).
\<close>

theorem visitFirst_mount:
  assumes "Type n = ElementNode" and "ToLower (Data n) \<noteq> ''html''"
    and "fst (visitFirst sz bo n positionID r) = None"
  shows "instrsOf (visitFirst sz bo n positionID) r =
           [ClearEl, SelectMountPoint (MountPointSelector r) (Data n)] @
           instrsOf (visitSyncElementEtc sz bo n positionID) r
     \<and> emitted (snd (visitFirst sz bo n positionID r)) =
         emitted r @ instrsOf (visitFirst sz bo n positionID) r
     \<and> LogText ''TODO: visitHead'' \<notin> set (logsOf (visitFirst sz bo n positionID) r)
     \<and> LogText ''TODO: visitBody'' \<notin> set (logsOf (visitFirst sz bo n positionID) r)"
proof -
  have e: "errOf (visitFirst sz bo n positionID) r = None"
    using assms(3) by (simp add: errOf_def)
  have i: "instrsOf (visitFirst sz bo n positionID) r =
           [ClearEl, SelectMountPoint (MountPointSelector r) (Data n)] @
           instrsOf (visitSyncElementEtc sz bo n positionID) r"
    using e by (simp add: run_visitFirst_mount [OF assms(1,2)] split: if_splits)
  have m: "emitted (snd (visitFirst sz bo n positionID r)) =
         emitted r @ instrsOf (visitFirst sz bo n positionID) r"
    by (rule stateless_run(1)) simp
  have "set (logsOf (visitFirst sz bo n positionID) r) \<subseteq>
      {LogText visitFirstTodo, LogText ''JSRenderer.visitFirst'', LogText ''visitMount got here'',
       LogText ''visitSyncNode''}"
    using assms(1,2) logs_visitSync(2) [of sz bo n positionID r]
    by (auto simp add: visitFirst_unfold visitMount_unfold)
  then have "LogText ''TODO: visitHead'' \<notin> set (logsOf (visitFirst sz bo n positionID) r)"
    and "LogText ''TODO: visitBody'' \<notin> set (logsOf (visitFirst sz bo n positionID) r)"
    by (auto simp: visitFirstTodo_def)
  with i m show ?thesis by blast
qed

theorem visitFirst_mount_witness:
  "Type exampleDiv = ElementNode \<and> ToLower (Data exampleDiv) \<noteq> ''html''
   \<and> fst (visitFirst exampleSz exampleBuildOut exampleDiv ''0'' exampleRenderer) = None
   \<and> instrsOf (visitFirst exampleSz exampleBuildOut exampleDiv ''0'') exampleRenderer =
       [ClearEl, SelectMountPoint ''#app'' ''div''] @
       instrsOf (visitSyncElementEtc exampleSz exampleBuildOut exampleDiv ''0'') exampleRenderer"
proof -
  have h1: "Type exampleDiv = ElementNode" "Data exampleDiv = ''div''"
    "MountPointSelector exampleRenderer = ''#app''"
    by (simp_all add: exampleDiv_def exampleRenderer_def)
  have h2: "ToLower (Data exampleDiv) \<noteq> ''html''" by code_simp
  have h3: "fst (visitFirst exampleSz exampleBuildOut exampleDiv ''0'' exampleRenderer) = None"
    by code_simp
  from visitFirst_mount [OF h1(1) h2 h3] h1 h2 h3 show ?thesis by simp
qed

text \<open>
  C6. For a root element whose tag is \<open>html\<close> in any letter case, once \<open>ClearEl\<close> is
  written, \<open>visitFirst\<close> goes through the children in sibling order: a child whose
  tag lowers to \<open>head\<close> goes to \<open>visitHead\<close> and one whose tag lowers to \<open>body\<close>
  goes to \<open>visitBody\<close> (each logs its line), and the first child with another tag
  ends the loop with the error \<open>UnexpectedTagInsideHtml\<close> for that child; no later
  child is looked at. Without such a child the result is \<open>nil\<close>. \<open>ClearEl\<close> is the only
  instruction written, and \<open>Render\<close> returns the same error.
\<close>

theorem visitFirst_html:
  assumes "Type n = ElementNode" and "ToLower (Data n) = ''html''" and "fits sz r ClearEl"
  shows "fst (visitFirst sz bo n positionID r) =
           (case dropWhile isHeadOrBody (siblings (FirstChild n)) of
              [] \<Rightarrow> None
            | c # cs \<Rightarrow> Some (UnexpectedTagInsideHtml (Data c) c))
     \<and> logsOf (visitFirst sz bo n positionID) r =
         [LogText visitFirstTodo, LogText ''JSRenderer.visitFirst''] @
         map (\<lambda>c. if ToLower (Data c) = ''head'' then LogText ''TODO: visitHead''
                   else LogText ''TODO: visitBody'')
           (takeWhile isHeadOrBody (siblings (FirstChild n)))
     \<and> instrsOf (visitFirst sz bo n positionID) r = [ClearEl]
     \<and> (Doc b = Some n \<longrightarrow>
          fst (Render True sz r (Some b)) =
            (case dropWhile isHeadOrBody (siblings (FirstChild n)) of
               [] \<Rightarrow> None
             | c # cs \<Rightarrow> Some (UnexpectedTagInsideHtml (Data c) c)))"
proof -
  have e: "errOf (visitFirst sz bo' n p) r =
           (case dropWhile isHeadOrBody (siblings (FirstChild n)) of
              [] \<Rightarrow> None
            | c # cs \<Rightarrow> Some (UnexpectedTagInsideHtml (Data c) c))" for bo' p
    using assms by (simp add: visitFirst_unfold run_visitFirstChildren)
  have l: "logsOf (visitFirst sz bo n positionID) r =
         [LogText visitFirstTodo, LogText ''JSRenderer.visitFirst''] @
         map (\<lambda>c. if ToLower (Data c) = ''head'' then LogText ''TODO: visitHead''
                   else LogText ''TODO: visitBody'')
           (takeWhile isHeadOrBody (siblings (FirstChild n)))"
    using assms by (simp add: visitFirst_unfold run_visitFirstChildren)
  have i: "instrsOf (visitFirst sz bo n positionID) r = [ClearEl]"
    using assms by (simp add: visitFirst_unfold run_visitFirstChildren)
  have "fst (Render True sz r (Some b)) =
            (case dropWhile isHeadOrBody (siblings (FirstChild n)) of
               [] \<Rightarrow> None
             | c # cs \<Rightarrow> Some (UnexpectedTagInsideHtml (Data c) c))" if d: "Doc b = Some n"
    using run_Render(1) [OF d assms(1), of sz r] e [of b "''0''"] by (simp add: errOf_def)
  with e [of bo positionID] l i show ?thesis by (simp add: errOf_def)
qed

theorem visitFirst_html_witness:
  "Type exampleHtmlBad = ElementNode \<and> ToLower (Data exampleHtmlBad) = ''html''
   \<and> fits exampleSz exampleRenderer ClearEl
   \<and> Doc \<lparr>Doc = Some exampleHtmlBad\<rparr> = Some exampleHtmlBad
   \<and> fst (visitFirst exampleSz exampleBuildOut exampleHtmlBad ''0'' exampleRenderer) =
       Some (UnexpectedTagInsideHtml ''div'' exampleDiv)
   \<and> logsOf (visitFirst exampleSz exampleBuildOut exampleHtmlBad ''0'') exampleRenderer =
       [LogText visitFirstTodo, LogText ''JSRenderer.visitFirst'', LogText ''TODO: visitHead'']
   \<and> instrsOf (visitFirst exampleSz exampleBuildOut exampleHtmlBad ''0'') exampleRenderer =
       [ClearEl]
   \<and> fst (Render True exampleSz exampleRenderer (Some \<lparr>Doc = Some exampleHtmlBad\<rparr>)) =
       Some (UnexpectedTagInsideHtml ''div'' exampleDiv)"
proof -
  have h1: "Type exampleHtmlBad = ElementNode" by (simp add: exampleHtmlBad_def)
  have h2: "ToLower (Data exampleHtmlBad) = ''html''" by code_simp
  have h3: "fits exampleSz exampleRenderer ClearEl" by code_simp
  have t: "takeWhile isHeadOrBody (siblings (FirstChild exampleHtmlBad)) =
      [VGNode ElementNode ''head'' [] [] None None (Some exampleDiv)]"
    by code_simp
  have d: "dropWhile isHeadOrBody (siblings (FirstChild exampleHtmlBad)) = [exampleDiv]"
    by code_simp
  have l: "ToLower ''head'' = ''head''" by code_simp
  have x: "Data exampleDiv = ''div''" by (simp add: exampleDiv_def)
  from visitFirst_html [OF h1 h2 h3, of exampleBuildOut "''0''" "\<lparr>Doc = Some exampleHtmlBad\<rparr>"]
    h1 h2 h3
  show ?thesis unfolding t d by (simp add: l x)
qed

text \<open>
  C7, as the code has it. \<open>handleDOMEvent\<close> panics with the message
  \<open>handleDOMEvent not yet implemented\<close>. \<open>visitHead\<close> and \<open>visitBody\<close> do not fail:
  each logs one line (\<open>TODO: visitHead\<close>, \<open>TODO: visitBody\<close>), writes no instruction
  and returns \<open>nil\<close>.
\<close>

theorem unimplemented_paths:
  "handleDOMEvent r = Panicked ''handleDOMEvent not yet implemented''
   \<and> visitHead bo n positionID r = (None, logPrintf (LogText ''TODO: visitHead'') r)
   \<and> visitBody bo n positionID r = (None, logPrintf (LogText ''TODO: visitBody'') r)
   \<and> instrsOf (visitHead bo n positionID) r = []
   \<and> instrsOf (visitBody bo n positionID) r = []"
proof -
  have "instrsOf (visitHead bo n positionID) r = []"
    and "instrsOf (visitBody bo n positionID) r = []"
    by (simp_all add: visitHead_unfold visitBody_unfold)
  then show ?thesis
    by (simp add: handleDOMEvent_def visitHead_def visitBody_def)
qed

text \<open>
  C7, as the claim states it, fails: on an \<open>html\<close> document with a \<open>head\<close> and a
  \<open>body\<close> child, \<open>visitHead\<close> and \<open>visitBody\<close> return \<open>nil\<close>, and the whole pass
  returns \<open>nil\<close>.
\<close>

theorem unimplemented_paths_counterexample:
  "fst (visitHead \<lparr>Doc = Some exampleHtml\<rparr> exampleHead ''0'' exampleRenderer) = None
   \<and> fst (visitBody \<lparr>Doc = Some exampleHtml\<rparr> exampleBody ''0'' exampleRenderer) = None
   \<and> fst (Render True exampleSz exampleRenderer (Some \<lparr>Doc = Some exampleHtml\<rparr>)) = None"
  by code_simp

text \<open>
  C9. A render pass over the same build output emits the same instructions whatever state
  the renderer is in, as long as the mount point selector and the buffer capacity are the
  same: it returns the same error or \<open>nil\<close> and adds the same instruction sequence, and
  with it the same position identifiers, which are part of the instructions. A pass keeps
  the selector and the capacity, so a second pass that follows a first one returns what
  the first returned and adds the same instructions again.
\<close>

theorem Render_deterministic:
  "fst (Render js sz (snd (Render js sz r bo)) bo) = fst (Render js sz r bo)
   \<and> instrsOf (\<lambda>r. Render js sz r bo) (snd (Render js sz r bo)) =
       instrsOf (\<lambda>r. Render js sz r bo) r
   \<and> emitted (snd (Render js sz (snd (Render js sz r bo)) bo)) =
       emitted r @ instrsOf (\<lambda>r. Render js sz r bo) r @ instrsOf (\<lambda>r. Render js sz r bo) r
   \<and> (MountPointSelector r' = MountPointSelector r \<and>
        capacity (instructionList r') = capacity (instructionList r) \<longrightarrow>
        fst (Render js sz r' bo) = fst (Render js sz r bo) \<and>
        instrsOf (\<lambda>r. Render js sz r bo) r' = instrsOf (\<lambda>r. Render js sz r bo) r)"
proof -
  let ?R = "\<lambda>r. Render js sz r bo"
  let ?r1 = "snd (Render js sz r bo)"
  have s: "stateless g ?R" for g by simp
  have c: "config ?r1 = config r"
    using stateless_run(3) [OF s, of r] .
  have 1: "errOf ?R ?r1 = errOf ?R r" "instrsOf ?R ?r1 = instrsOf ?R r"
    using stateless_same(1,2) [OF s c] by blast+
  have 2: "emitted ?r1 = emitted r @ instrsOf ?R r"
    using stateless_run(1) [OF s, of r] .
  have 3: "emitted (snd (?R ?r1)) = emitted ?r1 @ instrsOf ?R ?r1"
    using stateless_run(1) [OF s, of ?r1] .
  have 4: "errOf ?R r' = errOf ?R r \<and> instrsOf ?R r' = instrsOf ?R r"
    if "MountPointSelector r' = MountPointSelector r \<and>
        capacity (instructionList r') = capacity (instructionList r)"
  proof -
    from that have "config r' = config r" by (simp add: config_def)
    from stateless_same(1,2) [OF s this] show ?thesis by blast
  qed
  from 1 2 3 4 show ?thesis by (simp add: errOf_def)
qed

theorem Render_deterministic_witness:
  "MountPointSelector (exampleRenderer\<lparr>logged := [LogText ''x'']\<rparr>) =
     MountPointSelector exampleRenderer
   \<and> capacity (instructionList (exampleRenderer\<lparr>logged := [LogText ''x'']\<rparr>)) =
       capacity (instructionList exampleRenderer)
   \<and> fst (Render True exampleSz exampleRenderer (Some exampleBuildOut)) = None
   \<and> fst (Render True exampleSz
            (snd (Render True exampleSz exampleRenderer (Some exampleBuildOut)))
            (Some exampleBuildOut)) = None
   \<and> instrsOf (\<lambda>r. Render True exampleSz r (Some exampleBuildOut))
        (snd (Render True exampleSz exampleRenderer (Some exampleBuildOut))) =
       instrsOf (\<lambda>r. Render True exampleSz r (Some exampleBuildOut)) exampleRenderer
   \<and> instrsOf (\<lambda>r. Render True exampleSz r (Some exampleBuildOut))
        (exampleRenderer\<lparr>logged := [LogText ''x'']\<rparr>) =
       instrsOf (\<lambda>r. Render True exampleSz r (Some exampleBuildOut)) exampleRenderer"
proof -
  have h: "MountPointSelector (exampleRenderer\<lparr>logged := [LogText ''x'']\<rparr>) =
     MountPointSelector exampleRenderer"
    "capacity (instructionList (exampleRenderer\<lparr>logged := [LogText ''x'']\<rparr>)) =
       capacity (instructionList exampleRenderer)"
    by simp_all
  have s: "fst (Render True exampleSz exampleRenderer (Some exampleBuildOut)) = None"
    by code_simp
  from Render_deterministic
    [of True exampleSz exampleRenderer "Some exampleBuildOut"
        "exampleRenderer\<lparr>logged := [LogText ''x'']\<rparr>"] h s
  show ?thesis by simp
qed

text \<open>
  C10. \<open>visitSyncNode\<close> on a node that is neither an element, a text nor a comment
  returns the error \<open>UnknownNodeType\<close> and writes no instruction: only its log line is
  added. The sibling loop returns this error at once, without \<open>MoveToNextSibling\<close> and
  without visiting a later sibling. On a text node the call writes the one instruction
  \<open>SetText\<close> with the node's data, on a comment node the one instruction \<open>SetComment\<close>,
  and nothing else (nothing at all, with the error \<open>BufferOverflow\<close>, when that
  instruction does not fit the buffer).
\<close>

theorem visitSyncNode_by_type:
  "(Type n \<notin> {ElementNode, TextNode, CommentNode} \<longrightarrow>
      visitSyncNode sz bo n positionID r =
        (Some (UnknownNodeType (Type n)), logPrintf (LogText ''visitSyncNode'') r) \<and>
      instrsOf (visitSyncNode sz bo n positionID) r = [] \<and>
      visitSyncChildren sz bo (Some n) parentID childIndex r =
        (Some (UnknownNodeType (Type n)), logPrintf (LogText ''visitSyncNode'') r))
   \<and> (Type n = TextNode \<longrightarrow>
      fst (visitSyncNode sz bo n positionID r) =
        (if fits sz r (SetText (Data n)) then None else Some BufferOverflow) \<and>
      instrsOf (visitSyncNode sz bo n positionID) r =
        (if fits sz r (SetText (Data n)) then [SetText (Data n)] else []))
   \<and> (Type n = CommentNode \<longrightarrow>
      fst (visitSyncNode sz bo n positionID r) =
        (if fits sz r (SetComment (Data n)) then None else Some BufferOverflow) \<and>
      instrsOf (visitSyncNode sz bo n positionID) r =
        (if fits sz r (SetComment (Data n)) then [SetComment (Data n)] else []))"
proof (intro conjI impI)
  assume u: "Type n \<notin> {ElementNode, TextNode, CommentNode}"
  then have d: "Type n = DocumentNode" by (cases "Type n") simp_all
  then show v: "visitSyncNode sz bo n positionID r =
        (Some (UnknownNodeType (Type n)), logPrintf (LogText ''visitSyncNode'') r)"
    by (simp add: visitSyncNode.simps)
  from d show "instrsOf (visitSyncNode sz bo n positionID) r = []"
    by (simp add: visitSyncNode_unfold)
  from d show "visitSyncChildren sz bo (Some n) parentID childIndex r =
        (Some (UnknownNodeType (Type n)), logPrintf (LogText ''visitSyncNode'') r)"
    by (simp add: visitSyncChildren.simps visitSyncNode.simps orReturn_def)
next
  assume t: "Type n = TextNode"
  then show "fst (visitSyncNode sz bo n positionID r) =
        (if fits sz r (SetText (Data n)) then None else Some BufferOverflow)"
    using run_afterLog(1) [of r "writeSetText sz (Data n)" "LogText ''visitSyncNode''"]
    by (simp add: visitSyncNode_unfold errOf_def [symmetric] del: run_afterLog)
  from t show "instrsOf (visitSyncNode sz bo n positionID) r =
        (if fits sz r (SetText (Data n)) then [SetText (Data n)] else [])"
    by (simp add: visitSyncNode_unfold)
next
  assume t: "Type n = CommentNode"
  then show "fst (visitSyncNode sz bo n positionID r) =
        (if fits sz r (SetComment (Data n)) then None else Some BufferOverflow)"
    using run_afterLog(1) [of r "writeSetComment sz (Data n)" "LogText ''visitSyncNode''"]
    by (simp add: visitSyncNode_unfold errOf_def [symmetric] del: run_afterLog)
  from t show "instrsOf (visitSyncNode sz bo n positionID) r =
        (if fits sz r (SetComment (Data n)) then [SetComment (Data n)] else [])"
    by (simp add: visitSyncNode_unfold)
qed

theorem visitSyncNode_by_type_witness:
  "Type exampleDocument \<notin> {ElementNode, TextNode, CommentNode}
   \<and> Type exampleText = TextNode \<and> Type exampleComment = CommentNode
   \<and> visitSyncNode exampleSz exampleBuildOut exampleDocument ''0_1'' exampleRenderer =
       (Some (UnknownNodeType DocumentNode),
        logPrintf (LogText ''visitSyncNode'') exampleRenderer)
   \<and> visitSyncChildren exampleSz exampleBuildOut (Some exampleDocument) ''0'' 1 exampleRenderer =
       (Some (UnknownNodeType DocumentNode),
        logPrintf (LogText ''visitSyncNode'') exampleRenderer)
   \<and> instrsOf (visitSyncNode exampleSz exampleBuildOut exampleText ''0_1_1'') exampleRenderer =
       [SetText ''hi'']
   \<and> instrsOf (visitSyncNode exampleSz exampleBuildOut exampleComment ''0_2'') exampleRenderer =
       [SetComment ''note'']"
proof -
  have h: "Type exampleDocument \<notin> {ElementNode, TextNode, CommentNode}"
    "Type exampleDocument = DocumentNode"
    "Type exampleText = TextNode" "Type exampleComment = CommentNode"
    "Data exampleText = ''hi''" "Data exampleComment = ''note''"
    by (simp_all add: exampleDocument_def exampleText_def exampleComment_def)
  have f: "fits exampleSz exampleRenderer (SetText ''hi'')"
    "fits exampleSz exampleRenderer (SetComment ''note'')"
    by code_simp+
  from visitSyncNode_by_type
    [of exampleDocument exampleSz exampleBuildOut "''0_1''" exampleRenderer "''0''" 1]
    visitSyncNode_by_type
    [of exampleText exampleSz exampleBuildOut "''0_1_1''" exampleRenderer "''0''" 1]
    visitSyncNode_by_type
    [of exampleComment exampleSz exampleBuildOut "''0_2''" exampleRenderer "''0''" 1]
    h f
  show ?thesis by simp
qed

end
